theory Spec2Isabelle
  imports Main "HOL-Library.Word" "HOL-Library.Signed_Division"
begin

section \<open>The RFID reader loop of \<^verbatim>\<open>backend/read.cpp\<close>\<close>

text \<open>
  The program polls an MFRC522 reader, renders the UID of a detected card as a hexadecimal
  string and looks that string up in the table \<^verbatim>\<open>users\<close> of a MySQL database. The reader,
  the database server and the clock are the program's environment: what they deliver in one
  pass of the loop is an input of the model, and everything the program does to them (lines
  printed, statements sent, sleeping) is an event of its trace.
\<close>

subsection \<open>The string stream that renders the UID\<close>

text \<open>
  A \<^verbatim>\<open>std::stringstream\<close> as far as lines 66 to 73 use it: the characters written so far,
  the field width (which every formatted output resets to 0), the fill character, and the
  two format flags set by \<^verbatim>\<open>std::hex\<close> and \<^verbatim>\<open>std::uppercase\<close>. Output is right-adjusted, the
  default of a fresh stream.
\<close>

record sstream =
  buf :: string
  width :: nat
  fill :: char
  hex :: bool
  uppercase :: bool

definition new_sstream :: sstream where
  "new_sstream = \<lparr>buf = [], width = 0, fill = CHR '' '', hex = False, uppercase = False\<rparr>"

definition setw :: "nat \<Rightarrow> sstream \<Rightarrow> sstream" where
  "setw n ss = ss\<lparr>width := n\<rparr>"

definition setfill :: "char \<Rightarrow> sstream \<Rightarrow> sstream" where
  "setfill c ss = ss\<lparr>fill := c\<rparr>"

definition set_hex :: "sstream \<Rightarrow> sstream" where
  "set_hex ss = ss\<lparr>hex := True\<rparr>"

definition set_uppercase :: "sstream \<Rightarrow> sstream" where
  "set_uppercase ss = ss\<lparr>uppercase := True\<rparr>"

text \<open>Padding to the field width on the left, then the width falls back to 0.\<close>

definition put_padded :: "string \<Rightarrow> sstream \<Rightarrow> sstream" where
  "put_padded s ss =
     ss\<lparr>buf := buf ss @ replicate (width ss - length s) (fill ss) @ s, width := 0\<rparr>"

definition put_str :: "string \<Rightarrow> sstream \<Rightarrow> sstream" where
  "put_str s ss = put_padded s ss"

definition digit_char :: "bool \<Rightarrow> nat \<Rightarrow> char" where
  "digit_char up d =
     (if up then ''0123456789ABCDEF'' ! d else ''0123456789abcdef'' ! d)"

function digits :: "bool \<Rightarrow> nat \<Rightarrow> nat \<Rightarrow> string" where
  "digits up b n =
     (if n < b \<or> b < 2 then [digit_char up n]
      else digits up b (n div b) @ [digit_char up (n mod b)])"
  by pat_completeness auto
termination
  by (relation "measure (\<lambda>(up, b, n). n)") auto

text \<open>
  \<^verbatim>\<open>operator<<(int)\<close>: in hexadecimal the value is printed as the unsigned 32-bit number with
  the same bits, in decimal with its sign.
\<close>

definition int_text :: "sstream \<Rightarrow> int \<Rightarrow> string" where
  "int_text ss v =
     (if hex ss then digits (uppercase ss) 16 (nat (v mod 2 ^ 32))
      else if v < 0 then CHR ''-'' # digits False 10 (nat (- v))
      else digits False 10 (nat v))"

definition put_int :: "int \<Rightarrow> sstream \<Rightarrow> sstream" where
  "put_int v ss = put_padded (int_text ss v) ss"

subsection \<open>The UID read from the card\<close>

text \<open>
  \<^verbatim>\<open>mfrc.uid\<close> of the reader library: the number of bytes of the UID and the array that
  holds them (ten bytes in the library; the reader sets the size to 4, 7 or 10).
\<close>

record Uid =
  uid_size :: "8 word"
  uidByte :: "8 word list"

text \<open>Lines 67 to 71: the loop over the bytes, with its byte-sized counter.\<close>

definition put_uid_byte :: "Uid \<Rightarrow> 8 word \<Rightarrow> sstream \<Rightarrow> sstream" where
  "put_uid_byte u i ss =
     put_int (uint (uidByte u ! unat i))
       (setfill CHR ''0'' (setw 2 (set_uppercase (set_hex
          (if i > 0 then put_str [] ss else ss)))))"

function uid_loop :: "Uid \<Rightarrow> 8 word \<Rightarrow> sstream \<Rightarrow> sstream" where
  "uid_loop u i ss =
     (if i < uid_size u then uid_loop u (i + 1) (put_uid_byte u i ss) else ss)"
  by pat_completeness auto
termination
proof (relation "measure (\<lambda>(u, i, ss). unat (uid_size u) - unat i)")
  show "wf (measure (\<lambda>(u, i, ss). unat (uid_size u) - unat i))"
    by simp
next
  fix u :: Uid and i :: "8 word" and ss :: sstream
  assume "i < uid_size u"
  then have lt: "unat i < unat (uid_size u)"
    by (simp add: word_less_nat_alt)
  have "unat (uid_size u) < 2 ^ 8"
    using unsigned_less [of "uid_size u", where ?'a = nat] by simp
  with lt have "unat i + unat (1 :: 8 word) < 2 ^ LENGTH(8)"
    by simp
  then have "unat (i + 1) = unat i + unat (1 :: 8 word)"
    by (simp only: unat_add_lem)
  with lt show "((u, i + 1, put_uid_byte u i ss), (u, i, ss))
      \<in> measure (\<lambda>(u, i, ss). unat (uid_size u) - unat i)"
    by simp
qed

definition format_uid :: "Uid \<Rightarrow> string" where
  "format_uid u = buf (uid_loop u 0 new_sstream)"

subsection \<open>The table \<^verbatim>\<open>users\<close> and the three statements\<close>

text \<open>
  A row holds the four columns the statements name. \<^verbatim>\<open>tap_count\<close> is the 32-bit value that
  \<^verbatim>\<open>getInt\<close> and \<^verbatim>\<open>setInt\<close> exchange with the program, read as a signed number by \<open>sint\<close>;
  \<^verbatim>\<open>username\<close> may be \<^verbatim>\<open>NULL\<close> (\<open>None\<close>). The table is a list: the source shows no schema, so
  nothing here forbids two rows with one UID. The value a column takes when an
  \<^verbatim>\<open>INSERT\<close> does not name it belongs to the schema; for \<^verbatim>\<open>username\<close> it is a parameter of the
  database. \<^verbatim>\<open>WHERE UID = ?\<close> selects the rows whose UID is the given string, character for
  character; \<^verbatim>\<open>NOW()\<close> is the time the environment gives for the pass.
\<close>

record user_row =
  UID :: string
  tap_count :: "32 word"
  username :: "string option"
  last_scan_time :: nat

record database =
  users :: "user_row list"
  username_default :: "string option"

datatype sql_stmt =
    Select string
  | Update "32 word" string
  | Insert string

text \<open>\<^verbatim>\<open>SELECT UID, tap_count, username FROM users WHERE UID = ?\<close>\<close>

definition sql_select :: "string \<Rightarrow> database \<Rightarrow> user_row list" where
  "sql_select k db = filter (\<lambda>r. UID r = k) (users db)"

text \<open>\<^verbatim>\<open>UPDATE users SET tap_count = ?, last_scan_time = NOW() WHERE UID = ?\<close>\<close>

definition sql_update :: "32 word \<Rightarrow> string \<Rightarrow> nat \<Rightarrow> database \<Rightarrow> database" where
  "sql_update c k t db =
     db\<lparr>users := map (\<lambda>r. if UID r = k then r\<lparr>tap_count := c, last_scan_time := t\<rparr> else r)
                     (users db)\<rparr>"

text \<open>\<^verbatim>\<open>INSERT INTO users (UID, tap_count, last_scan_time) VALUES (?, 1, NOW())\<close>\<close>

definition sql_insert :: "string \<Rightarrow> nat \<Rightarrow> database \<Rightarrow> database" where
  "sql_insert k t db =
     db\<lparr>users := users db @
        [\<lparr>UID = k, tap_count = 1, username = username_default db, last_scan_time = t\<rparr>]\<rparr>"

text \<open>\<^verbatim>\<open>getString\<close> delivers the empty string for \<^verbatim>\<open>NULL\<close>.\<close>

definition get_string :: "string option \<Rightarrow> string" where
  "get_string v = (case v of None \<Rightarrow> [] | Some s \<Rightarrow> s)"

subsection \<open>The environment of one pass, and the trace\<close>

text \<open>
  Every call of the database driver inside the \<^verbatim>\<open>try\<close> block may throw an
  \<^verbatim>\<open>sql::SQLException\<close>. The environment says, for each call site, whether it throws in this
  pass and with which message. A statement that throws leaves the table as it was.
\<close>

datatype driver_call =
    PrepareSelect | SetStringSelect | ExecuteQuery | ResNext
  | GetStringUsername | GetIntTapCount
  | PrepareUpdate | SetIntUpdate | SetStringUpdate | ExecuteUpdate
  | PrepareInsert | SetStringInsert | ExecuteInsert

record env =
  is_new_card_present :: bool
  read_card_serial :: bool
  uid :: Uid
  now :: nat
  fault :: "driver_call \<rightharpoonup> string"

text \<open>
  The trace: calls of the reader, the connection, each statement handed to the server (by
  \<^verbatim>\<open>executeQuery\<close> or \<^verbatim>\<open>executeUpdate\<close>, whether or not the call then throws), each line
  written to \<^verbatim>\<open>std::cout\<close> or \<^verbatim>\<open>std::cerr\<close> (a line ends with \<^verbatim>\<open>std::endl\<close>), and each sleep with
  its length in milliseconds.
\<close>

datatype event =
    PCD_Init
  | Connect string string string
  | SetSchema string
  | PICC_IsNewCardPresent
  | PICC_ReadCardSerial
  | Exec sql_stmt
  | Cout string
  | Cerr string
  | Sleep_ms int

text \<open>
  \<^verbatim>\<open>delay\<close>: \<^verbatim>\<open>Sleep(ms)\<close> on Windows, \<^verbatim>\<open>usleep(ms * 1000)\<close> elsewhere. The event records the
  argument in milliseconds. That is the time slept as long as \<open>ms * 1000\<close> fits the 32-bit
  \<^verbatim>\<open>int\<close> in which the source computes it (up to 2147483 ms); the program's only call is
  \<^verbatim>\<open>delay(1000)\<close>, and larger arguments are outside this model.
\<close>

definition delay :: "int \<Rightarrow> event list" where
  "delay ms = [Sleep_ms ms]"

text \<open>The first of the given calls that throws, in the order in which they are made.\<close>

fun first_fault :: "env \<Rightarrow> driver_call list \<Rightarrow> string option" where
  "first_fault e [] = None"
| "first_fault e (c # cs) =
     (case fault e c of Some m \<Rightarrow> Some m | None \<Rightarrow> first_fault e cs)"

subsection \<open>The body of the loop\<close>

text \<open>
  Lines 82 to 95, the row is there. The result is the message of the exception thrown, if
  any, the database afterwards and the events. \<^verbatim>\<open>tapCount\<close> is an \<^verbatim>\<open>int\<close>: the sum is taken in 32
  bits and wraps around in two's complement, where C++ leaves the overflow undefined;
  \<^verbatim>\<open>tapCount % 2\<close> is the remainder of the division that truncates towards zero.
\<close>

definition update_branch ::
  "env \<Rightarrow> string \<Rightarrow> user_row \<Rightarrow> database \<Rightarrow> string option \<times> database \<times> event list" where
  "update_branch e uidStr r db =
     (let username = get_string (username r);
          tapCount = tap_count r + 1
      in case first_fault e
            [GetStringUsername, GetIntTapCount, PrepareUpdate, SetIntUpdate, SetStringUpdate] of
           Some m \<Rightarrow> (Some m, db, [])
         | None \<Rightarrow>
            (case fault e ExecuteUpdate of
               Some m \<Rightarrow> (Some m, db, [Exec (Update tapCount uidStr)])
             | None \<Rightarrow>
                (None, sql_update tapCount uidStr (now e) db,
                 [Exec (Update tapCount uidStr),
                  Cout (if sint tapCount smod 2 = 0 then ''Goodbye '' @ username
                        else ''Hello '' @ username)])))"

text \<open>Lines 97 to 101, no row.\<close>

definition insert_branch ::
  "env \<Rightarrow> string \<Rightarrow> database \<Rightarrow> string option \<times> database \<times> event list" where
  "insert_branch e uidStr db =
     (case first_fault e [PrepareInsert, SetStringInsert] of
        Some m \<Rightarrow> (Some m, db, [])
      | None \<Rightarrow>
         (case fault e ExecuteInsert of
            Some m \<Rightarrow> (Some m, db, [Exec (Insert uidStr)])
          | None \<Rightarrow>
             (None, sql_insert uidStr (now e) db,
              [Exec (Insert uidStr), Cout ''UID inserted into database.''])))"

text \<open>Lines 77 to 102, the \<^verbatim>\<open>try\<close> block.\<close>

definition try_block ::
  "env \<Rightarrow> string \<Rightarrow> database \<Rightarrow> string option \<times> database \<times> event list" where
  "try_block e uidStr db =
     (case first_fault e [PrepareSelect, SetStringSelect] of
        Some m \<Rightarrow> (Some m, db, [])
      | None \<Rightarrow>
         (case first_fault e [ExecuteQuery, ResNext] of
            Some m \<Rightarrow> (Some m, db, [Exec (Select uidStr)])
          | None \<Rightarrow>
             (case (case sql_select uidStr db of
                      r # rs \<Rightarrow> update_branch e uidStr r db
                    | [] \<Rightarrow> insert_branch e uidStr db) of
                (exc, db', evs) \<Rightarrow> (exc, db', Exec (Select uidStr) # evs))))"

text \<open>
  The driver calls of the \<^verbatim>\<open>try\<close> block in the order in which lines 77 to 100 make them when
  none throws: those of the \<^verbatim>\<open>SELECT\<close>, then those of the branch taken.
\<close>

definition try_calls :: "string \<Rightarrow> database \<Rightarrow> driver_call list" where
  "try_calls uidStr db =
     [PrepareSelect, SetStringSelect, ExecuteQuery, ResNext]
     @ (case sql_select uidStr db of
          r # rs \<Rightarrow> [GetStringUsername, GetIntTapCount, PrepareUpdate, SetIntUpdate,
                     SetStringUpdate, ExecuteUpdate]
        | [] \<Rightarrow> [PrepareInsert, SetStringInsert, ExecuteInsert])"

text \<open>Lines 103 to 105, the handler.\<close>

definition catch_block :: "string option \<Rightarrow> event list" where
  "catch_block exc = (case exc of Some m \<Rightarrow> [Cerr (''SQL Exception: '' @ m)] | None \<Rightarrow> [])"

text \<open>Lines 63 to 107, one pass of \<^verbatim>\<open>while (1)\<close>.\<close>

definition iteration :: "env \<Rightarrow> database \<Rightarrow> database \<times> event list" where
  "iteration e db =
     (if \<not> is_new_card_present e then (db, [PICC_IsNewCardPresent])
      else if \<not> read_card_serial e then (db, [PICC_IsNewCardPresent, PICC_ReadCardSerial])
      else
        (let uidStr = format_uid (uid e)
         in case try_block e uidStr db of
              (exc, db', evs) \<Rightarrow>
                (db', [PICC_IsNewCardPresent, PICC_ReadCardSerial, Cout (''UID: '' @ uidStr)]
                      @ evs @ catch_block exc @ delay 1000)))"

text \<open>
  The loop never ends; its behaviour is given for every finite number of passes, one
  environment for each pass.
\<close>

fun loop :: "env list \<Rightarrow> database \<Rightarrow> database \<times> event list" where
  "loop [] db = (db, [])"
| "loop (e # es) db =
     (case iteration e db of
        (db', evs) \<Rightarrow> (case loop es db' of (db'', evs') \<Rightarrow> (db'', evs @ evs')))"

text \<open>
  Lines 55 to 60 run before the loop and outside any \<^verbatim>\<open>try\<close>: an exception of \<^verbatim>\<open>connect\<close> or
  \<^verbatim>\<open>setSchema\<close> ends the program (\<open>Inl\<close>).
\<close>

record startup =
  connect_exc :: "string option"
  set_schema_exc :: "string option"

definition init_events :: "event list" where
  "init_events = [PCD_Init, Connect ''tcp://127.0.0.1:3307'' ''root'' ''root'']"

definition main :: "startup \<Rightarrow> env list \<Rightarrow> database \<Rightarrow> (string + database) \<times> event list" where
  "main st es db =
     (case connect_exc st of
        Some m \<Rightarrow> (Inl m, init_events)
      | None \<Rightarrow>
         (case set_schema_exc st of
            Some m \<Rightarrow> (Inl m, init_events @ [SetSchema ''rfid_database''])
          | None \<Rightarrow>
             (case loop es db of
                (db', evs) \<Rightarrow> (Inr db', init_events @ [SetSchema ''rfid_database''] @ evs))))"

subsection \<open>Reading the trace\<close>

fun cout_lines :: "event list \<Rightarrow> string list" where
  "cout_lines [] = []"
| "cout_lines (Cout s # evs) = s # cout_lines evs"
| "cout_lines (ev # evs) = cout_lines evs"

fun cerr_lines :: "event list \<Rightarrow> string list" where
  "cerr_lines [] = []"
| "cerr_lines (Cerr s # evs) = s # cerr_lines evs"
| "cerr_lines (ev # evs) = cerr_lines evs"

fun statements :: "event list \<Rightarrow> sql_stmt list" where
  "statements [] = []"
| "statements (Exec q # evs) = q # statements evs"
| "statements (ev # evs) = statements evs"

fun sleeps :: "event list \<Rightarrow> int list" where
  "sleeps [] = []"
| "sleeps (Sleep_ms ms # evs) = ms # sleeps evs"
| "sleeps (ev # evs) = sleeps evs"

fun is_connect :: "event \<Rightarrow> bool" where
  "is_connect (Connect url user password) = True"
| "is_connect ev = False"

fun stmt_key :: "sql_stmt \<Rightarrow> string" where
  "stmt_key (Select k) = k"
| "stmt_key (Update c k) = k"
| "stmt_key (Insert k) = k"

definition is_greeting :: "string \<Rightarrow> bool" where
  "is_greeting s = (take 6 s = ''Hello '' \<or> take 8 s = ''Goodbye '')"

text \<open>A card was detected and its serial number read: the pass goes beyond line 64.\<close>

definition card_read :: "env \<Rightarrow> bool" where
  "card_read e = (is_new_card_present e \<and> read_card_serial e)"

text \<open>
  The rendering the specification describes: a byte becomes its two hexadecimal digits, the
  high one first, with the letters in upper case.
\<close>

definition hex_pair_spec :: "8 word \<Rightarrow> string" where
  "hex_pair_spec b =
     [''0123456789ABCDEF'' ! (unat b div 16), ''0123456789ABCDEF'' ! (unat b mod 16)]"

text \<open>The invariant of the table: every tap count, read as a signed number, is at least 1.\<close>

definition tap_counts_positive :: "database \<Rightarrow> bool" where
  "tap_counts_positive db = list_all (\<lambda>r. 1 \<le> sint (tap_count r)) (users db)"

subsection \<open>A sample card, pass and table\<close>

text \<open>Concrete inputs on which the theorems below are exercised.\<close>

definition example_uid :: Uid where
  "example_uid = \<lparr>uid_size = 4, uidByte = [0x0A, 0xFF, 0x00, 0x7B, 0, 0, 0, 0, 0, 0]\<rparr>"

definition example_tap :: env where
  "example_tap = \<lparr>is_new_card_present = True, read_card_serial = True, uid = example_uid,
     now = 1700000000, fault = Map.empty\<rparr>"

definition example_row :: user_row where
  "example_row = \<lparr>UID = ''0AFF007B'', tap_count = 4, username = Some ''alice'',
     last_scan_time = 1699990000\<rparr>"

definition other_row :: user_row where
  "other_row = \<lparr>UID = ''DEADBEEF'', tap_count = 1, username = None,
     last_scan_time = 1699980000\<rparr>"

definition example_db :: database where
  "example_db = \<lparr>users = [other_row, example_row], username_default = None\<rparr>"

definition other_db :: database where
  "other_db = \<lparr>users = [other_row], username_default = None\<rparr>"

definition failing_tap :: env where
  "failing_tap = example_tap\<lparr>fault := [ExecuteUpdate \<mapsto> ''Lost connection to MySQL server'']\<rparr>"

definition idle_pass :: env where
  "idle_pass = example_tap\<lparr>is_new_card_present := False\<rparr>"

definition example_startup :: startup where
  "example_startup = \<lparr>connect_exc = None, set_schema_exc = None\<rparr>"

definition worn_row :: user_row where
  "worn_row = \<lparr>UID = ''0AFF007B'', tap_count = 0x7FFFFFFF, username = Some ''alice'',
     last_scan_time = 1699990000\<rparr>"

definition worn_db :: database where
  "worn_db = \<lparr>users = [worn_row], username_default = None\<rparr>"

definition failing_insert_tap :: env where
  "failing_insert_tap = example_tap\<lparr>fault := [ExecuteInsert \<mapsto> ''Table is read only'']\<rparr>"

definition failing_select_tap :: env where
  "failing_select_tap = example_tap\<lparr>fault := [ExecuteQuery \<mapsto> ''MySQL server has gone away'']\<rparr>"

section \<open>Properties\<close>

subsection \<open>Arithmetic of the tap count\<close>

lemma smod_2_eq_0_iff: "((k::int) smod 2 = 0) = even k"
  by (auto simp: signed_modulo_int_def sgn_if)

lemma even_sint: "even (sint (w :: 32 word)) = even w"
proof -
  have "bit (sint w) 0 = bit w 0"
    by (simp add: bit_signed_iff)
  then show ?thesis by (simp add: bit_0)
qed

lemma sint_succ:
  assumes "sint (w :: 32 word) < 2147483647"
  shows "sint (w + 1) = sint w + 1"
proof -
  have "- (2 ^ 31) \<le> sint w"
    using sint_ge [of w] by simp
  with assms have "signed_take_bit 31 (sint w + 1) = sint w + 1"
    by (simp add: signed_take_bit_int_eq_self)
  then show ?thesis
    by (simp add: sint_word_add)
qed

subsection \<open>The rendering of the UID\<close>

lemma digits_hex_byte:
  assumes "n < 256"
  shows "replicate (2 - length (digits up 16 n)) CHR ''0'' @ digits up 16 n
         = [digit_char up (n div 16), digit_char up (n mod 16)]"
proof (cases "n < 16")
  case True
  then show ?thesis by (simp add: digit_char_def)
next
  case False
  with assms have "n div 16 < 16" by simp
  with False show ?thesis by simp
qed

lemma put_uid_byte_eq:
  assumes "width ss = 0"
  shows "put_uid_byte u i ss =
    ss\<lparr>buf := buf ss @ hex_pair_spec (uidByte u ! unat i), width := 0, fill := CHR ''0'',
       hex := True, uppercase := True\<rparr>"
proof -
  let ?b = "uidByte u ! unat i"
  have lt: "unat ?b < 256"
    using unsigned_less [of ?b, where ?'a = nat] by simp
  have "uint ?b < 2 ^ 8"
    using unsigned_less [of ?b, where ?'a = int] by simp
  then have "uint ?b mod 2 ^ 32 = uint ?b"
    by (simp add: mod_pos_pos_trivial)
  then have n: "nat (uint ?b mod 2 ^ 32) = unat ?b"
    by (simp only: nat_uint_eq)
  have pad: "replicate (2 - length (digits True 16 (unat ?b))) CHR ''0'' @ digits True 16 (unat ?b)
      = hex_pair_spec ?b"
    using digits_hex_byte [OF lt, of True] by (simp add: hex_pair_spec_def digit_char_def)
  show ?thesis
    using assms n pad
    by (simp add: put_uid_byte_def put_int_def put_str_def put_padded_def int_text_def
        setfill_def setw_def set_uppercase_def set_hex_def del: digits.simps)
qed

lemma uid_loop_buf:
  "width ss = 0 \<Longrightarrow>
   buf (uid_loop u i ss) =
     buf ss @ concat (map (\<lambda>k. hex_pair_spec (uidByte u ! k)) [unat i ..< unat (uid_size u)])"
proof (induction u i ss rule: uid_loop.induct)
  case (1 u i ss)
  show ?case
  proof (cases "i < uid_size u")
    case True
    then have lt: "unat i < unat (uid_size u)"
      by (simp add: word_less_nat_alt)
    have "unat (uid_size u) < 2 ^ 8"
      using unsigned_less [of "uid_size u", where ?'a = nat] by simp
    with lt have "unat i + unat (1 :: 8 word) < 2 ^ LENGTH(8)"
      by simp
    then have "unat (i + 1) = unat i + unat (1 :: 8 word)"
      by (simp only: unat_add_lem)
    then have suc: "unat (i + 1) = Suc (unat i)"
      by simp
    have w: "width (put_uid_byte u i ss) = 0"
      using "1.prems" by (simp add: put_uid_byte_eq)
    have "buf (uid_loop u i ss) = buf (uid_loop u (i + 1) (put_uid_byte u i ss))"
      using True by simp
    also have "\<dots> = buf (put_uid_byte u i ss)
        @ concat (map (\<lambda>k. hex_pair_spec (uidByte u ! k)) [Suc (unat i) ..< unat (uid_size u)])"
      using "1.IH" [OF True w] suc by simp
    also have "\<dots> = buf ss
        @ concat (map (\<lambda>k. hex_pair_spec (uidByte u ! k)) [unat i ..< unat (uid_size u)])"
      using "1.prems" lt by (simp add: put_uid_byte_eq upt_conv_Cons)
    finally show ?thesis .
  next
    case False
    then have "\<not> unat i < unat (uid_size u)"
      by (simp add: word_less_nat_alt)
    with False show ?thesis by simp
  qed
qed

lemma format_uid_nth:
  "format_uid u = concat (map (\<lambda>k. hex_pair_spec (uidByte u ! k)) [0 ..< unat (uid_size u)])"
  using uid_loop_buf [of new_sstream u 0] by (simp add: format_uid_def new_sstream_def)

lemma format_uid_take:
  assumes "unat (uid_size u) \<le> length (uidByte u)"
  shows "format_uid u = concat (map hex_pair_spec (take (unat (uid_size u)) (uidByte u)))"
proof -
  have "map (\<lambda>k. hex_pair_spec (uidByte u ! k)) [0 ..< unat (uid_size u)]
      = map hex_pair_spec (take (unat (uid_size u)) (uidByte u))"
    using assms by (simp add: list_eq_iff_nth_eq)
  then show ?thesis by (simp add: format_uid_nth)
qed

lemma length_format_uid: "length (format_uid u) = 2 * unat (uid_size u)"
  by (simp add: format_uid_nth length_concat hex_pair_spec_def comp_def sum_list_triv)

lemma hex_pair_spec_chars: "set (hex_pair_spec b) \<subseteq> set ''0123456789ABCDEF''"
proof -
  have mem: "''0123456789ABCDEF'' ! n \<in> set ''0123456789ABCDEF''" if "n < 16" for n
  proof (rule nth_mem)
    have "length ''0123456789ABCDEF'' = 16" by simp
    with that show "n < length ''0123456789ABCDEF''" by (simp only:)
  qed
  have "unat b div 16 < 16"
    using unsigned_less [of b, where ?'a = nat] by simp
  then have hi: "''0123456789ABCDEF'' ! (unat b div 16) \<in> set ''0123456789ABCDEF''"
    by (rule mem)
  have lo: "''0123456789ABCDEF'' ! (unat b mod 16) \<in> set ''0123456789ABCDEF''"
    by (rule mem) simp
  have "set (hex_pair_spec b) =
      {''0123456789ABCDEF'' ! (unat b div 16), ''0123456789ABCDEF'' ! (unat b mod 16)}"
    by (simp only: hex_pair_spec_def list.set)
  with hi lo show ?thesis
    by (simp only: insert_subset empty_subsetI simp_thms)
qed

subsection \<open>The three statements\<close>

lemma sql_select_single:
  assumes "sql_select k db = [r]" and "x \<in> set (users db)" and "UID x = k"
  shows "x = r"
proof -
  from assms(2,3) have "x \<in> set (sql_select k db)"
    by (simp add: sql_select_def)
  with assms(1) show ?thesis by simp
qed

lemma sql_select_hd_mem:
  assumes "sql_select k db = r # rs"
  shows "r \<in> set (users db) \<and> UID r = k"
proof -
  have "r \<in> set (sql_select k db)"
    by (simp add: assms)
  then show ?thesis by (simp add: sql_select_def)
qed

lemma sql_select_update:
  "sql_select k (sql_update c k t db)
     = map (\<lambda>r. r\<lparr>tap_count := c, last_scan_time := t\<rparr>) (sql_select k db)"
proof -
  have "filter (\<lambda>r. UID r = k)
          (map (\<lambda>r. if UID r = k then r\<lparr>tap_count := c, last_scan_time := t\<rparr> else r) xs)
      = map (\<lambda>r. r\<lparr>tap_count := c, last_scan_time := t\<rparr>) (filter (\<lambda>r. UID r = k) xs)"
    for xs
    by (induction xs) simp_all
  then show ?thesis by (simp add: sql_select_def sql_update_def)
qed

lemma sql_select_insert:
  "sql_select k (sql_insert k t db)
     = sql_select k db
       @ [\<lparr>UID = k, tap_count = 1, username = username_default db, last_scan_time = t\<rparr>]"
  by (simp add: sql_select_def sql_insert_def)

lemma positive_after_update:
  assumes "tap_counts_positive db" and "sql_select k db = r # rs"
    and "sint (tap_count r) < 2147483647"
  shows "tap_counts_positive (sql_update (tap_count r + 1) k t db)"
proof -
  from assms(2) have "r \<in> set (users db)"
    by (simp add: sql_select_hd_mem)
  with assms(1) have "1 \<le> sint (tap_count r)"
    by (simp add: tap_counts_positive_def list_all_iff)
  with assms(3) have "1 \<le> sint (tap_count r + 1)"
    by (simp add: sint_succ)
  with assms(1) show ?thesis
    by (auto simp: tap_counts_positive_def sql_update_def list_all_iff)
qed

lemma positive_after_insert:
  assumes "tap_counts_positive db"
  shows "tap_counts_positive (sql_insert k t db)"
  using assms by (simp add: tap_counts_positive_def sql_insert_def)

subsection \<open>The try block\<close>

lemma try_block_present:
  assumes "fault e = Map.empty" and "sql_select k db = r # rs"
  shows "try_block e k db =
    (None, sql_update (tap_count r + 1) k (now e) db,
     [Exec (Select k), Exec (Update (tap_count r + 1) k),
      Cout (if odd (sint (tap_count r + 1)) then ''Hello '' @ get_string (username r)
            else ''Goodbye '' @ get_string (username r))])"
  using assms by (simp add: try_block_def update_branch_def smod_2_eq_0_iff Let_def)

lemma try_block_absent:
  assumes "fault e = Map.empty" and "sql_select k db = []"
  shows "try_block e k db =
    (None, sql_insert k (now e) db,
     [Exec (Select k), Exec (Insert k), Cout ''UID inserted into database.''])"
  using assms by (simp add: try_block_def insert_branch_def)

lemma try_block_events:
  "cerr_lines (snd (snd (try_block e k db))) = []"
  "sleeps (snd (snd (try_block e k db))) = []"
  "\<forall>q \<in> set (statements (snd (snd (try_block e k db)))). stmt_key q = k"
  "\<forall>ev \<in> set (snd (snd (try_block e k db))). \<not> is_connect ev \<and> ev \<noteq> PICC_IsNewCardPresent"
  by (auto simp: try_block_def update_branch_def insert_branch_def Let_def
         simp del: first_fault.simps split: option.splits list.splits)

lemma try_block_raised:
  assumes "fst (try_block e k db) = Some m"
  shows "fst (snd (try_block e k db)) = db \<and> cout_lines (snd (snd (try_block e k db))) = []"
  using assms
  by (auto simp: try_block_def update_branch_def insert_branch_def Let_def
         simp del: first_fault.simps split: option.splits list.splits)

lemma try_block_returned:
  assumes "fst (try_block e k db) = None"
  shows "(\<exists>r rs. sql_select k db = r # rs \<and> try_block e k db =
            (None, sql_update (tap_count r + 1) k (now e) db,
             [Exec (Select k), Exec (Update (tap_count r + 1) k),
              Cout (if odd (sint (tap_count r + 1)) then ''Hello '' @ get_string (username r)
                    else ''Goodbye '' @ get_string (username r))]))
       \<or> (sql_select k db = [] \<and> try_block e k db =
            (None, sql_insert k (now e) db,
             [Exec (Select k), Exec (Insert k), Cout ''UID inserted into database.'']))"
  using assms
  by (auto simp: try_block_def update_branch_def insert_branch_def Let_def smod_2_eq_0_iff
         simp del: first_fault.simps split: option.splits list.splits)

lemma try_block_update_value:
  assumes "Update c k' \<in> set (statements (snd (snd (try_block e k db))))"
  shows "\<exists>r rs. sql_select k db = r # rs \<and> c = tap_count r + 1"
  using assms
  by (auto simp: try_block_def update_branch_def insert_branch_def Let_def
         simp del: first_fault.simps split: option.splits list.splits)

lemma try_block_database:
  "fst (snd (try_block e k db)) = db
   \<or> (\<exists>r rs. sql_select k db = r # rs
         \<and> fst (snd (try_block e k db)) = sql_update (tap_count r + 1) k (now e) db)
   \<or> (sql_select k db = [] \<and> fst (snd (try_block e k db)) = sql_insert k (now e) db)"
proof (cases "fst (try_block e k db)")
  case None
  from try_block_returned [OF this] show ?thesis by auto
next
  case (Some m)
  from try_block_raised [OF this] show ?thesis by simp
qed

lemma try_block_update_throws:
  assumes "first_fault e [PrepareSelect, SetStringSelect, ExecuteQuery, ResNext,
        GetStringUsername, GetIntTapCount, PrepareUpdate, SetIntUpdate, SetStringUpdate] = None"
    and "sql_select k db = r # rs" and "fault e ExecuteUpdate = Some m"
  shows "try_block e k db = (Some m, db, [Exec (Select k), Exec (Update (tap_count r + 1) k)])"
  using assms by (simp add: try_block_def update_branch_def Let_def split: option.splits)

lemma try_block_insert_throws:
  assumes "first_fault e [PrepareSelect, SetStringSelect, ExecuteQuery, ResNext,
        PrepareInsert, SetStringInsert] = None"
    and "sql_select k db = []" and "fault e ExecuteInsert = Some m"
  shows "try_block e k db = (Some m, db, [Exec (Select k), Exec (Insert k)])"
  using assms by (simp add: try_block_def insert_branch_def split: option.splits)

lemma set_cout_lines: "set (cout_lines evs) = {msg. Cout msg \<in> set evs}"
  by (induction evs rule: cout_lines.induct) auto

lemma try_block_message:
  assumes "Cout msg \<in> set (snd (snd (try_block e k db)))"
  shows "fst (try_block e k db) = None
     \<and> ((\<exists>c. snd (try_block e k db)
               = (sql_update c k (now e) db, [Exec (Select k), Exec (Update c k), Cout msg]))
        \<or> snd (try_block e k db)
               = (sql_insert k (now e) db, [Exec (Select k), Exec (Insert k), Cout msg]))"
proof (cases "fst (try_block e k db)")
  case None
  from try_block_returned [OF this] assms show ?thesis
    by (auto simp: None)
next
  case (Some m)
  from try_block_raised [OF this] have "cout_lines (snd (snd (try_block e k db))) = []"
    by simp
  with assms show ?thesis
    using set_cout_lines [of "snd (snd (try_block e k db))"] by simp
qed

lemma first_fault_at:
  assumes "\<forall>c' \<in> set pre. fault e c' = None" and "fault e c = Some m"
  shows "first_fault e (pre @ c # post) = Some m"
  using assms by (induction pre) simp_all

lemma first_fault_none:
  assumes "\<forall>c \<in> set cs. fault e c = None"
  shows "first_fault e cs = None"
  using assms by (induction cs) simp_all

lemma try_block_exception: "fst (try_block e k db) = first_fault e (try_calls k db)"
  by (cases "sql_select k db")
    (simp_all add: try_block_def try_calls_def update_branch_def insert_branch_def Let_def
      split: option.splits)

lemma try_block_throws_at:
  assumes "try_calls k db = pre @ c # post"
    and "\<forall>c' \<in> set pre. fault e c' = None" and "fault e c = Some m"
  shows "fst (try_block e k db) = Some m"
  by (simp only: try_block_exception assms(1) first_fault_at [OF assms(2,3)])

subsection \<open>One pass of the loop\<close>

lemma cout_lines_append: "cout_lines (xs @ ys) = cout_lines xs @ cout_lines ys"
  by (induction xs rule: cout_lines.induct) simp_all

lemma cerr_lines_append: "cerr_lines (xs @ ys) = cerr_lines xs @ cerr_lines ys"
  by (induction xs rule: cerr_lines.induct) simp_all

lemma statements_append: "statements (xs @ ys) = statements xs @ statements ys"
  by (induction xs rule: statements.induct) simp_all

lemma sleeps_append: "sleeps (xs @ ys) = sleeps xs @ sleeps ys"
  by (induction xs rule: sleeps.induct) simp_all

lemma catch_block_reads:
  "cout_lines (catch_block exc) = []" "statements (catch_block exc) = []"
  "sleeps (catch_block exc) = []"
  by (simp_all add: catch_block_def split: option.splits)

lemma iteration_card:
  assumes "card_read e"
  shows "iteration e db =
    (fst (snd (try_block e (format_uid (uid e)) db)),
     [PICC_IsNewCardPresent, PICC_ReadCardSerial, Cout (''UID: '' @ format_uid (uid e))]
       @ snd (snd (try_block e (format_uid (uid e)) db))
       @ catch_block (fst (try_block e (format_uid (uid e)) db)) @ [Sleep_ms 1000])"
  using assms by (simp add: iteration_def card_read_def delay_def Let_def case_prod_beta)

lemma iteration_no_card:
  assumes "\<not> card_read e"
  shows "iteration e db = (db, if is_new_card_present e
            then [PICC_IsNewCardPresent, PICC_ReadCardSerial] else [PICC_IsNewCardPresent])"
  using assms by (auto simp add: iteration_def card_read_def)

lemma iteration_known:
  assumes "card_read e" and "fault e = Map.empty"
    and "sql_select (format_uid (uid e)) db = r # rs"
  shows "iteration e db =
    (sql_update (tap_count r + 1) (format_uid (uid e)) (now e) db,
     [PICC_IsNewCardPresent, PICC_ReadCardSerial, Cout (''UID: '' @ format_uid (uid e)),
      Exec (Select (format_uid (uid e))), Exec (Update (tap_count r + 1) (format_uid (uid e))),
      Cout (if odd (sint (tap_count r + 1)) then ''Hello '' @ get_string (username r)
            else ''Goodbye '' @ get_string (username r)),
      Sleep_ms 1000])"
  by (simp add: iteration_card [OF assms(1)] try_block_present [OF assms(2,3)] catch_block_def)

lemma iteration_unknown:
  assumes "card_read e" and "fault e = Map.empty"
    and "sql_select (format_uid (uid e)) db = []"
  shows "iteration e db =
    (sql_insert (format_uid (uid e)) (now e) db,
     [PICC_IsNewCardPresent, PICC_ReadCardSerial, Cout (''UID: '' @ format_uid (uid e)),
      Exec (Select (format_uid (uid e))), Exec (Insert (format_uid (uid e))),
      Cout ''UID inserted into database.'', Sleep_ms 1000])"
  by (simp add: iteration_card [OF assms(1)] try_block_absent [OF assms(2,3)] catch_block_def)

lemma iteration_statement_keys:
  "\<forall>q \<in> set (statements (snd (iteration e db))). stmt_key q = format_uid (uid e)"
proof (cases "card_read e")
  case True
  then show ?thesis
    using try_block_events(3) [of e "format_uid (uid e)" db]
    by (simp add: iteration_card statements_append catch_block_reads)
next
  case False
  then show ?thesis by (simp add: iteration_no_card)
qed

lemma iteration_database:
  "fst (iteration e db)
     = (if card_read e then fst (snd (try_block e (format_uid (uid e)) db)) else db)"
  by (simp add: iteration_card iteration_no_card)

lemma iteration_statements:
  "statements (snd (iteration e db))
     = (if card_read e then statements (snd (snd (try_block e (format_uid (uid e)) db))) else [])"
  by (simp add: iteration_card iteration_no_card statements_append catch_block_reads)

lemma iteration_sleeps: "sleeps (snd (iteration e db)) = (if card_read e then [1000] else [])"
proof (cases "card_read e")
  case True
  then show ?thesis
    using try_block_events(2) [of e "format_uid (uid e)" db]
    by (simp add: iteration_card sleeps_append catch_block_reads)
next
  case False
  then show ?thesis by (simp add: iteration_no_card)
qed

lemma iteration_polls_once:
  "count_list (snd (iteration e db)) PICC_IsNewCardPresent = 1"
proof (cases "card_read e")
  case True
  have "PICC_IsNewCardPresent \<notin> set (snd (snd (try_block e (format_uid (uid e)) db)))"
    using try_block_events(4) [of e "format_uid (uid e)" db] by blast
  then have "count_list (snd (snd (try_block e (format_uid (uid e)) db))) PICC_IsNewCardPresent = 0"
    by (simp add: count_list_0_iff)
  then show ?thesis
    by (simp add: iteration_card [OF True] catch_block_def split: option.splits)
next
  case False
  then show ?thesis by (simp add: iteration_no_card)
qed

lemma iteration_no_connect: "filter is_connect (snd (iteration e db)) = []"
proof (cases "card_read e")
  case True
  then show ?thesis
    using try_block_events(4) [of e "format_uid (uid e)" db]
    by (auto simp: iteration_card catch_block_def filter_empty_conv split: option.splits)
next
  case False
  then show ?thesis by (simp add: iteration_no_card)
qed

subsection \<open>Any number of passes\<close>

lemma loop_snoc:
  "loop (es @ [e]) db =
     (fst (iteration e (fst (loop es db))),
      snd (loop es db) @ snd (iteration e (fst (loop es db))))"
  by (induction es arbitrary: db) (simp_all add: case_prod_beta)

lemma loop_polls: "count_list (snd (loop es db)) PICC_IsNewCardPresent = length es"
  by (induction es arbitrary: db) (simp_all add: case_prod_beta iteration_polls_once)

lemma loop_no_connect: "filter is_connect (snd (loop es db)) = []"
  by (induction es arbitrary: db) (simp_all add: case_prod_beta iteration_no_connect)

subsection \<open>The sample inputs\<close>

lemma format_example_uid: "format_uid example_uid = ''0AFF007B''"
  by (simp add: format_uid_nth example_uid_def hex_pair_spec_def upt_rec [of _ 4] upt_rec [of _ "Suc _"])

lemma example_tap_facts:
  "card_read example_tap" "fault example_tap = Map.empty"
  "format_uid (uid example_tap) = ''0AFF007B''" "now example_tap = 1700000000"
  by (simp_all add: card_read_def example_tap_def format_example_uid)

lemma example_selects:
  "sql_select ''0AFF007B'' example_db = [example_row]"
  "sql_select ''0AFF007B'' other_db = []"
  by (simp_all add: sql_select_def example_db_def other_db_def example_row_def other_row_def)

lemma failing_tap_facts:
  "card_read failing_tap" "format_uid (uid failing_tap) = ''0AFF007B''"
  "try_block failing_tap ''0AFF007B'' example_db
     = (Some ''Lost connection to MySQL server'', example_db,
        [Exec (Select ''0AFF007B''), Exec (Update 5 ''0AFF007B'')])"
  by (simp_all add: failing_tap_def card_read_def example_tap_def format_example_uid
      try_block_def update_branch_def example_selects example_row_def)

lemma failing_tap_faults:
  "first_fault failing_tap [PrepareSelect, SetStringSelect, ExecuteQuery, ResNext,
      GetStringUsername, GetIntTapCount, PrepareUpdate, SetIntUpdate, SetStringUpdate] = None"
  "fault failing_tap ExecuteUpdate = Some ''Lost connection to MySQL server''"
  by (simp_all add: failing_tap_def)

lemma failing_insert_tap_facts:
  "card_read failing_insert_tap" "format_uid (uid failing_insert_tap) = ''0AFF007B''"
  "first_fault failing_insert_tap [PrepareSelect, SetStringSelect, ExecuteQuery, ResNext,
      PrepareInsert, SetStringInsert] = None"
  "fault failing_insert_tap ExecuteInsert = Some ''Table is read only''"
  by (simp_all add: failing_insert_tap_def card_read_def example_tap_def format_example_uid)

lemma failing_select_tap_facts:
  "card_read failing_select_tap" "format_uid (uid failing_select_tap) = ''0AFF007B''"
  "fault failing_select_tap PrepareSelect = None"
  "fault failing_select_tap SetStringSelect = None"
  "fault failing_select_tap ExecuteQuery = Some ''MySQL server has gone away''"
  by (simp_all add: failing_select_tap_def card_read_def example_tap_def format_example_uid)

lemma example_try_calls:
  "try_calls ''0AFF007B'' example_db
     = [PrepareSelect, SetStringSelect] @ ExecuteQuery
       # [ResNext, GetStringUsername, GetIntTapCount, PrepareUpdate, SetIntUpdate,
          SetStringUpdate, ExecuteUpdate]"
  "try_calls ''0AFF007B'' example_db
     = [PrepareSelect, SetStringSelect, ExecuteQuery, ResNext, GetStringUsername,
        GetIntTapCount, PrepareUpdate, SetIntUpdate, SetStringUpdate] @ ExecuteUpdate # []"
  "try_calls ''0AFF007B'' other_db
     = [PrepareSelect, SetStringSelect, ExecuteQuery, ResNext, PrepareInsert, SetStringInsert]
       @ ExecuteInsert # []"
  by (simp_all add: try_calls_def example_selects)

lemma not_greeting_uid_line: "\<not> is_greeting (''UID: '' @ k)"
  by (simp add: is_greeting_def)

lemma not_greeting_inserted: "\<not> is_greeting ''UID inserted into database.''"
  by (simp add: is_greeting_def)

lemma greeting_goodbye: "is_greeting (''Goodbye '' @ n)"
  by (simp add: is_greeting_def)

subsection \<open>The claims\<close>

text \<open>
  Claim C1, as stated, fails at the largest \<^verbatim>\<open>int\<close>. The row is there with tap count 2147483647
  and nothing throws; the pass writes \<^verbatim>\<open>getInt + 1\<close> computed in 32 bits, and the count in the
  table afterwards is -2147483648, not the old count plus 1. (C++ leaves this overflow
  undefined; the model takes the two's complement result.)
\<close>

theorem tap_at_int_max_is_not_an_increment:
  "card_read example_tap \<and> fault example_tap = Map.empty
   \<and> sql_select (format_uid (uid example_tap)) worn_db = [worn_row]
   \<and> sint (tap_count worn_row) = 2147483647
   \<and> users (fst (iteration example_tap worn_db))
        = [worn_row\<lparr>tap_count := 0x80000000, last_scan_time := 1700000000\<rparr>]
   \<and> sint (tap_count (hd (users (fst (iteration example_tap worn_db))))) = - 2147483648
   \<and> sint (tap_count (hd (users (fst (iteration example_tap worn_db)))))
        \<noteq> sint (tap_count worn_row) + 1"
proof -
  have s: "sql_select (format_uid (uid example_tap)) worn_db = [worn_row]"
    by (simp add: example_tap_facts sql_select_def worn_db_def worn_row_def)
  have "tap_count worn_row + 1 = 0x80000000" "sint (tap_count worn_row) = 2147483647"
    "users worn_db = [worn_row]" "UID worn_row = ''0AFF007B''"
    by (simp_all add: worn_db_def worn_row_def)
  then show ?thesis
    using s by (simp add: iteration_known [OF example_tap_facts(1,2) s] example_tap_facts
        sql_update_def)
qed

text \<open>
  Claim C1, amended. A card is read, no driver call throws, and the \<^verbatim>\<open>SELECT\<close> delivers the row
  \<open>r\<close> first, with a tap count below 2147483647. Then the pass sends exactly one \<^verbatim>\<open>SELECT\<close>, keyed
  by the UID string, followed by one \<^verbatim>\<open>UPDATE\<close> that writes the count of \<open>r\<close> plus 1, as a number;
  afterwards every row with that UID holds this count and the time of the pass, and all
  other rows are as before. Where the UID names a single row, that row's own count has gone
  up by 1.
\<close>

theorem known_uid_tap_increments_count:
  assumes "card_read e" and "fault e = Map.empty"
    and "sql_select (format_uid (uid e)) db = r # rs"
    and "sint (tap_count r) < 2147483647"
  shows "statements (snd (iteration e db))
           = [Select (format_uid (uid e)), Update (tap_count r + 1) (format_uid (uid e))]
       \<and> sint (tap_count r + 1) = sint (tap_count r) + 1
       \<and> users (fst (iteration e db))
           = map (\<lambda>x. if UID x = format_uid (uid e)
                       then x\<lparr>tap_count := tap_count r + 1, last_scan_time := now e\<rparr> else x)
                 (users db)
       \<and> (rs = [] \<longrightarrow> users (fst (iteration e db))
           = map (\<lambda>x. if UID x = format_uid (uid e)
                       then x\<lparr>tap_count := tap_count x + 1, last_scan_time := now e\<rparr> else x)
                 (users db))"
proof -
  have "map (\<lambda>x. if UID x = format_uid (uid e)
                 then x\<lparr>tap_count := tap_count r + 1, last_scan_time := now e\<rparr> else x) (users db)
      = map (\<lambda>x. if UID x = format_uid (uid e)
                 then x\<lparr>tap_count := tap_count x + 1, last_scan_time := now e\<rparr> else x) (users db)"
    if "rs = []"
  proof (rule map_cong [OF refl])
    fix x assume "x \<in> set (users db)"
    with assms(3) that have "UID x = format_uid (uid e) \<Longrightarrow> x = r"
      by (simp add: sql_select_single)
    then show "(if UID x = format_uid (uid e)
                 then x\<lparr>tap_count := tap_count r + 1, last_scan_time := now e\<rparr> else x)
        = (if UID x = format_uid (uid e)
                 then x\<lparr>tap_count := tap_count x + 1, last_scan_time := now e\<rparr> else x)"
      by auto
  qed
  then show ?thesis
    using sint_succ [OF assms(4)]
    by (simp add: iteration_known [OF assms(1,2,3)] sql_update_def)
qed

theorem known_uid_tap_increments_count_witness:
  "card_read example_tap \<and> fault example_tap = Map.empty
   \<and> sql_select (format_uid (uid example_tap)) example_db = [example_row]
   \<and> sint (tap_count example_row) < 2147483647
   \<and> statements (snd (iteration example_tap example_db))
        = [Select ''0AFF007B'', Update 5 ''0AFF007B'']
   \<and> sint (tap_count example_row) = 4 \<and> sint (tap_count example_row + 1) = 5
   \<and> users (fst (iteration example_tap example_db))
        = [other_row, example_row\<lparr>tap_count := 5, last_scan_time := 1700000000\<rparr>]"
proof -
  have s: "sql_select (format_uid (uid example_tap)) example_db = [example_row]"
    by (simp add: example_tap_facts example_selects)
  have b: "sint (tap_count example_row) < 2147483647"
    by (simp add: example_row_def)
  have "tap_count example_row + 1 = 5" "UID other_row \<noteq> ''0AFF007B''"
    "UID example_row = ''0AFF007B''" "users example_db = [other_row, example_row]"
    "sint (tap_count example_row) = 4"
    by (simp_all add: example_row_def other_row_def example_db_def)
  with known_uid_tap_increments_count [OF example_tap_facts(1,2) s b] s b show ?thesis
    by (simp add: example_tap_facts)
qed

text \<open>
  Claim C2. A card is read, no driver call throws, and no row has the UID string. Then the
  pass sends one \<^verbatim>\<open>SELECT\<close> and one \<^verbatim>\<open>INSERT\<close>, and the table afterwards is the old table, row for
  row, followed by one new row with that UID, tap count 1 and the time of the pass.
\<close>

theorem unknown_uid_tap_inserts_row:
  assumes "card_read e" and "fault e = Map.empty"
    and "format_uid (uid e) \<notin> set (map UID (users db))"
  shows "statements (snd (iteration e db))
           = [Select (format_uid (uid e)), Insert (format_uid (uid e))]
       \<and> users (fst (iteration e db))
           = users db @ [\<lparr>UID = format_uid (uid e), tap_count = 1,
                           username = username_default db, last_scan_time = now e\<rparr>]"
proof -
  from assms(3) have "sql_select (format_uid (uid e)) db = []"
    by (force simp: sql_select_def filter_empty_conv)
  then show ?thesis
    by (simp add: iteration_unknown [OF assms(1,2)] sql_insert_def)
qed

theorem unknown_uid_tap_inserts_row_witness:
  "card_read example_tap \<and> fault example_tap = Map.empty
   \<and> format_uid (uid example_tap) \<notin> set (map UID (users other_db))
   \<and> users (fst (iteration example_tap other_db))
        = [other_row, \<lparr>UID = ''0AFF007B'', tap_count = 1, username = None,
                         last_scan_time = 1700000000\<rparr>]"
proof -
  have a: "format_uid (uid example_tap) \<notin> set (map UID (users other_db))"
    by (simp add: example_tap_facts other_db_def other_row_def)
  have "users other_db = [other_row]" "username_default other_db = None"
    by (simp_all add: other_db_def)
  with unknown_uid_tap_inserts_row [OF example_tap_facts(1,2) a] a show ?thesis
    by (simp add: example_tap_facts)
qed

text \<open>
  Claim C3. A tap of a registered UID prints, after the UID line, \<^verbatim>\<open>Hello\<close> and the user name when
  the incremented tap count is odd and \<^verbatim>\<open>Goodbye\<close> and the user name when it is even; the
  incremented count is the one the table holds afterwards, and the next tap of the same UID
  prints the other greeting.
\<close>

theorem greeting_follows_parity:
  assumes "card_read e" and "fault e = Map.empty"
    and "sql_select (format_uid (uid e)) db = r # rs"
  shows "cout_lines (snd (iteration e db))
           = [''UID: '' @ format_uid (uid e),
              (if odd (sint (tap_count r + 1)) then ''Hello '' else ''Goodbye '')
                @ get_string (username r)]
       \<and> map tap_count (sql_select (format_uid (uid e)) (fst (iteration e db)))
           = map (\<lambda>x. tap_count r + 1) (r # rs)
       \<and> (card_read e' \<and> fault e' = Map.empty \<and> format_uid (uid e') = format_uid (uid e) \<longrightarrow>
            cout_lines (snd (iteration e' (fst (iteration e db))))
              = [''UID: '' @ format_uid (uid e),
                 (if odd (sint (tap_count r + 1)) then ''Goodbye '' else ''Hello '')
                   @ get_string (username r)])"
proof -
  let ?k = "format_uid (uid e)"
  let ?db = "sql_update (tap_count r + 1) ?k (now e) db"
  have db: "fst (iteration e db) = ?db"
    by (simp add: iteration_known [OF assms])
  have sel: "sql_select ?k ?db
      = map (\<lambda>x. x\<lparr>tap_count := tap_count r + 1, last_scan_time := now e\<rparr>) (r # rs)"
    by (simp only: sql_select_update assms(3))
  have second: "cout_lines (snd (iteration e' ?db))
      = [''UID: '' @ ?k,
         (if odd (sint (tap_count r + 1)) then ''Goodbye '' else ''Hello '')
           @ get_string (username r)]"
    if e': "card_read e'" "fault e' = Map.empty" "format_uid (uid e') = ?k"
  proof -
    have "sql_select (format_uid (uid e')) ?db
        = r\<lparr>tap_count := tap_count r + 1, last_scan_time := now e\<rparr>
          # map (\<lambda>x. x\<lparr>tap_count := tap_count r + 1, last_scan_time := now e\<rparr>) rs"
      using sel e'(3) by simp
    from iteration_known [OF e'(1,2) this] show ?thesis
      by (simp add: e'(3) even_sint)
  qed
  show ?thesis
    using second by (simp add: db sel iteration_known [OF assms] even_sint)
qed

theorem greeting_follows_parity_witness:
  "card_read example_tap \<and> fault example_tap = Map.empty
   \<and> sql_select (format_uid (uid example_tap)) example_db = [example_row]
   \<and> cout_lines (snd (iteration example_tap example_db)) = [''UID: 0AFF007B'', ''Hello alice'']
   \<and> cout_lines (snd (iteration example_tap (fst (iteration example_tap example_db))))
        = [''UID: 0AFF007B'', ''Goodbye alice'']"
proof -
  have s: "sql_select (format_uid (uid example_tap)) example_db = [example_row]"
    by (simp add: example_tap_facts example_selects)
  have "tap_count example_row + 1 = 5" "get_string (username example_row) = ''alice''"
    by (simp_all add: example_row_def get_string_def)
  with greeting_follows_parity [OF example_tap_facts(1,2) s, of example_tap] s show ?thesis
    by (simp add: example_tap_facts)
qed

text \<open>
  Claim C4. The key of a detected card is its UID rendered in upper-case hexadecimal: byte by
  byte, in order, two digits each (a leading zero where the byte is below 16), nothing in
  between, so the string has twice as many characters as the UID has bytes and consists of
  the characters 0-9 and A-F. Every statement of the pass carries this string as its key, and
  it is the string the pass prints after \<^verbatim>\<open>UID: \<close>. The bytes are those of the array up to the
  size the reader reports, which is assumed to lie within the array.
\<close>

theorem uid_key_is_uppercase_hex:
  assumes "unat (uid_size (uid e)) \<le> length (uidByte (uid e))"
  shows "format_uid (uid e)
           = concat (map hex_pair_spec (take (unat (uid_size (uid e))) (uidByte (uid e))))
       \<and> length (format_uid (uid e)) = 2 * unat (uid_size (uid e))
       \<and> set (format_uid (uid e)) \<subseteq> set ''0123456789ABCDEF''
       \<and> (\<forall>q \<in> set (statements (snd (iteration e db))). stmt_key q = format_uid (uid e))
       \<and> (card_read e \<longrightarrow>
            take 1 (cout_lines (snd (iteration e db))) = [''UID: '' @ format_uid (uid e)])"
proof -
  have "set (format_uid (uid e)) \<subseteq> set ''0123456789ABCDEF''"
    unfolding format_uid_nth using hex_pair_spec_chars by (auto simp del: set_simps)
  moreover have "card_read e \<longrightarrow>
      take 1 (cout_lines (snd (iteration e db))) = [''UID: '' @ format_uid (uid e)]"
    by (simp add: iteration_card)
  ultimately show ?thesis
    using format_uid_take [OF assms] length_format_uid [of "uid e"]
      iteration_statement_keys [of e db]
    by (simp only: simp_thms)
qed

theorem uid_key_is_uppercase_hex_witness:
  "unat (uid_size (uid example_tap)) \<le> length (uidByte (uid example_tap))
   \<and> format_uid (uid example_tap) = ''0AFF007B''
   \<and> length (format_uid (uid example_tap)) = 8
   \<and> card_read example_tap
   \<and> statements (snd (iteration example_tap example_db))
        = [Select ''0AFF007B'', Update 5 ''0AFF007B'']"
proof -
  have h: "unat (uid_size (uid example_tap)) \<le> length (uidByte (uid example_tap))"
    by (simp add: example_tap_def example_uid_def)
  have c: "card_read example_tap"
    by (simp add: card_read_def example_tap_def)
  have f: "fault example_tap = Map.empty"
    by (simp add: example_tap_def)
  have u: "format_uid (uid example_tap) = ''0AFF007B''"
    by (simp add: example_tap_def format_example_uid)
  have s: "sql_select (format_uid (uid example_tap)) example_db = [example_row]"
    by (simp add: u sql_select_def example_db_def example_row_def other_row_def)
  from uid_key_is_uppercase_hex [OF h, of example_db] have
    "length (format_uid (uid example_tap)) = 2 * unat (uid_size (uid example_tap))"
    by (rule conjunct2 [THEN conjunct1])
  then have "length (format_uid (uid example_tap)) = 8"
    by (simp add: example_tap_def example_uid_def)
  moreover have "statements (snd (iteration example_tap example_db))
        = [Select ''0AFF007B'', Update 5 ''0AFF007B'']"
    using iteration_known [OF c f s] by (simp add: u example_row_def)
  ultimately show ?thesis
    using h c u by (simp only: simp_thms)
qed

text \<open>
  Claim C5. A card is read and some driver call of the \<^verbatim>\<open>try\<close> block throws, the calls made
  before it in this pass having succeeded: a call of the \<^verbatim>\<open>SELECT\<close>, of the \<^verbatim>\<open>UPDATE\<close> or of the
  \<^verbatim>\<open>INSERT\<close>, whichever the pass reaches. Then the handler writes one line, \<^verbatim>\<open>SQL Exception: \<close> and
  the message of that call, to \<^verbatim>\<open>std::cerr\<close>, the table is as before, nothing but the UID line
  has gone to \<^verbatim>\<open>std::cout\<close>, and the pass ends with the sleep like any other. If no call throws, nothing is written to \<^verbatim>\<open>std::cerr\<close>. The loop has no
  way out: after any passes, with or without exceptions, the next pass runs in full on the
  database they left, and the reader has been polled once for every pass.
\<close>

theorem sql_exception_caught_and_loop_continues:
  "(card_read e \<and> try_calls (format_uid (uid e)) db = pre @ c # post
      \<and> (\<forall>c' \<in> set pre. fault e c' = None) \<and> fault e c = Some m \<longrightarrow>
      snd (iteration e db)
        = [PICC_IsNewCardPresent, PICC_ReadCardSerial, Cout (''UID: '' @ format_uid (uid e))]
          @ snd (snd (try_block e (format_uid (uid e)) db))
          @ [Cerr (''SQL Exception: '' @ m), Sleep_ms 1000]
      \<and> cerr_lines (snd (iteration e db)) = [''SQL Exception: '' @ m]
      \<and> fst (iteration e db) = db
      \<and> cout_lines (snd (iteration e db)) = [''UID: '' @ format_uid (uid e)])
   \<and> (card_read e \<and> (\<forall>c \<in> set (try_calls (format_uid (uid e)) db). fault e c = None) \<longrightarrow>
        cerr_lines (snd (iteration e db)) = [])
   \<and> loop (es @ [e']) db0
        = (fst (iteration e' (fst (loop es db0))),
           snd (loop es db0) @ snd (iteration e' (fst (loop es db0))))
   \<and> count_list (snd (loop es db0)) PICC_IsNewCardPresent = length es"
proof -
  let ?k = "format_uid (uid e)"
  have raised: "snd (iteration e db)
        = [PICC_IsNewCardPresent, PICC_ReadCardSerial, Cout (''UID: '' @ ?k)]
          @ snd (snd (try_block e ?k db)) @ [Cerr (''SQL Exception: '' @ m), Sleep_ms 1000]
      \<and> cerr_lines (snd (iteration e db)) = [''SQL Exception: '' @ m]
      \<and> fst (iteration e db) = db
      \<and> cout_lines (snd (iteration e db)) = [''UID: '' @ ?k]"
    if c: "card_read e" and p: "try_calls ?k db = pre @ c # post"
      "\<forall>c' \<in> set pre. fault e c' = None" "fault e c = Some m"
  proof -
    have t: "fst (try_block e ?k db) = Some m"
      by (rule try_block_throws_at [OF p])
    from try_block_raised [OF t] try_block_events(1) [of e ?k db] show ?thesis
      by (simp add: iteration_card [OF c] t cerr_lines_append cout_lines_append catch_block_def)
  qed
  have quiet: "cerr_lines (snd (iteration e db)) = []"
    if c: "card_read e" and n: "\<forall>c \<in> set (try_calls ?k db). fault e c = None"
  proof -
    have "fst (try_block e ?k db) = None"
      by (simp only: try_block_exception first_fault_none [OF n])
    with try_block_events(1) [of e ?k db] show ?thesis
      by (simp add: iteration_card [OF c] cerr_lines_append catch_block_def)
  qed
  from raised quiet loop_snoc [of es e' db0] loop_polls [of es db0] show ?thesis
    by blast
qed

theorem sql_exception_caught_and_loop_continues_witness:
  "card_read failing_select_tap
   \<and> fault failing_select_tap ExecuteQuery = Some ''MySQL server has gone away''
   \<and> iteration failing_select_tap example_db
        = (example_db,
           [PICC_IsNewCardPresent, PICC_ReadCardSerial, Cout ''UID: 0AFF007B'',
            Exec (Select ''0AFF007B''),
            Cerr ''SQL Exception: MySQL server has gone away'', Sleep_ms 1000])
   \<and> card_read failing_tap
   \<and> fault failing_tap ExecuteUpdate = Some ''Lost connection to MySQL server''
   \<and> iteration failing_tap example_db
        = (example_db,
           [PICC_IsNewCardPresent, PICC_ReadCardSerial, Cout ''UID: 0AFF007B'',
            Exec (Select ''0AFF007B''), Exec (Update 5 ''0AFF007B''),
            Cerr ''SQL Exception: Lost connection to MySQL server'', Sleep_ms 1000])
   \<and> card_read failing_insert_tap
   \<and> fault failing_insert_tap ExecuteInsert = Some ''Table is read only''
   \<and> cerr_lines (snd (iteration failing_insert_tap other_db))
        = [''SQL Exception: Table is read only'']
   \<and> cerr_lines (snd (iteration example_tap example_db)) = []
   \<and> snd (loop ([failing_select_tap, failing_tap] @ [example_tap]) example_db)
        = snd (loop [failing_select_tap, failing_tap] example_db)
          @ [PICC_IsNewCardPresent, PICC_ReadCardSerial, Cout ''UID: 0AFF007B'',
             Exec (Select ''0AFF007B''), Exec (Update 5 ''0AFF007B''),
             Cout ''Hello alice'', Sleep_ms 1000]
   \<and> count_list (snd (loop [failing_select_tap, failing_tap] example_db)) PICC_IsNewCardPresent
        = 2"
proof -
  have sel: "\<forall>c' \<in> set [PrepareSelect, SetStringSelect]. fault failing_select_tap c' = None"
    by (simp add: failing_select_tap_facts)
  have upd: "\<forall>c' \<in> set [PrepareSelect, SetStringSelect, ExecuteQuery, ResNext,
        GetStringUsername, GetIntTapCount, PrepareUpdate, SetIntUpdate, SetStringUpdate].
      fault failing_tap c' = None"
    by (simp add: failing_tap_def)
  have ins: "\<forall>c' \<in> set [PrepareSelect, SetStringSelect, ExecuteQuery, ResNext,
        PrepareInsert, SetStringInsert]. fault failing_insert_tap c' = None"
    by (simp add: failing_insert_tap_def)
  have ok: "\<forall>c \<in> set (try_calls (format_uid (uid example_tap)) example_db).
      fault example_tap c = None"
    by (simp add: example_tap_facts)
  have ts: "try_block failing_select_tap ''0AFF007B'' example_db
      = (Some ''MySQL server has gone away'', example_db, [Exec (Select ''0AFF007B'')])"
    by (simp add: try_block_def failing_select_tap_facts)
  have d1: "fst (iteration failing_select_tap example_db) = example_db"
    by (simp add: iteration_card failing_select_tap_facts ts)
  have d2: "fst (iteration failing_tap example_db) = example_db"
    by (simp add: iteration_card failing_tap_facts)
  have dbs: "fst (loop [failing_select_tap, failing_tap] example_db) = example_db"
    by (simp add: case_prod_beta d1 d2)
  have s: "sql_select (format_uid (uid example_tap)) example_db = [example_row]"
    by (simp add: example_tap_facts example_selects)
  have last: "snd (iteration example_tap example_db)
      = [PICC_IsNewCardPresent, PICC_ReadCardSerial, Cout ''UID: 0AFF007B'',
         Exec (Select ''0AFF007B''), Exec (Update 5 ''0AFF007B''),
         Cout ''Hello alice'', Sleep_ms 1000]"
    by (simp add: iteration_known [OF example_tap_facts(1,2) s] example_tap_facts
        example_row_def get_string_def)
  have A: "snd (iteration failing_select_tap example_db)
        = [PICC_IsNewCardPresent, PICC_ReadCardSerial, Cout ''UID: 0AFF007B'',
           Exec (Select ''0AFF007B''),
           Cerr ''SQL Exception: MySQL server has gone away'', Sleep_ms 1000]
      \<and> fst (iteration failing_select_tap example_db) = example_db"
    using sql_exception_caught_and_loop_continues
      [of failing_select_tap example_db "[PrepareSelect, SetStringSelect]" ExecuteQuery
        "[ResNext, GetStringUsername, GetIntTapCount, PrepareUpdate, SetIntUpdate,
          SetStringUpdate, ExecuteUpdate]"
        "''MySQL server has gone away''", THEN conjunct1]
      sel example_try_calls(1)
    by (simp add: failing_select_tap_facts ts)
  have B: "snd (iteration failing_tap example_db)
        = [PICC_IsNewCardPresent, PICC_ReadCardSerial, Cout ''UID: 0AFF007B'',
           Exec (Select ''0AFF007B''), Exec (Update 5 ''0AFF007B''),
           Cerr ''SQL Exception: Lost connection to MySQL server'', Sleep_ms 1000]
      \<and> fst (iteration failing_tap example_db) = example_db"
    using sql_exception_caught_and_loop_continues
      [of failing_tap example_db "[PrepareSelect, SetStringSelect, ExecuteQuery, ResNext,
          GetStringUsername, GetIntTapCount, PrepareUpdate, SetIntUpdate, SetStringUpdate]"
        ExecuteUpdate "[]" "''Lost connection to MySQL server''", THEN conjunct1]
      upd example_try_calls(2)
    by (simp add: failing_tap_facts failing_tap_faults)
  have hc: "card_read failing_insert_tap
      \<and> try_calls (format_uid (uid failing_insert_tap)) other_db
          = [PrepareSelect, SetStringSelect, ExecuteQuery, ResNext, PrepareInsert,
             SetStringInsert] @ ExecuteInsert # []
      \<and> (\<forall>c' \<in> set [PrepareSelect, SetStringSelect, ExecuteQuery, ResNext, PrepareInsert,
             SetStringInsert]. fault failing_insert_tap c' = None)
      \<and> fault failing_insert_tap ExecuteInsert = Some ''Table is read only''"
    using ins example_try_calls(3) by (simp add: failing_insert_tap_facts)
  have C: "cerr_lines (snd (iteration failing_insert_tap other_db))
        = [''SQL Exception: Table is read only'']"
    using sql_exception_caught_and_loop_continues
      [THEN conjunct1, THEN mp, OF hc, THEN conjunct2, THEN conjunct1]
    by simp
  have D: "cerr_lines (snd (iteration example_tap example_db)) = []"
    using sql_exception_caught_and_loop_continues
      [of example_tap example_db, THEN conjunct2, THEN conjunct1] ok
    by (simp add: example_tap_facts)
  have E: "snd (loop ([failing_select_tap, failing_tap] @ [example_tap]) example_db)
        = snd (loop [failing_select_tap, failing_tap] example_db)
          @ snd (iteration example_tap example_db)
      \<and> count_list (snd (loop [failing_select_tap, failing_tap] example_db))
            PICC_IsNewCardPresent = 2"
    using sql_exception_caught_and_loop_continues
      [of _ _ _ _ _ _ "[failing_select_tap, failing_tap]" example_tap example_db,
        THEN conjunct2, THEN conjunct2]
    by (simp only: dbs snd_conv length_Cons list.size) simp
  from A B C D E show ?thesis
    by (simp only: last prod_eq_iff fst_conv snd_conv failing_select_tap_facts
        failing_tap_facts failing_tap_faults failing_insert_tap_facts simp_thms)
qed

text \<open>
  Claim C6, as stated, fails. A pass in which no card is present ends at the \<^verbatim>\<open>continue\<close> of
  line 64, before \<^verbatim>\<open>delay(1000)\<close>: it polls the reader and does not sleep.
\<close>

theorem no_sleep_without_card:
  "\<not> card_read idle_pass
   \<and> iteration idle_pass example_db = (example_db, [PICC_IsNewCardPresent])
   \<and> Sleep_ms 1000 \<notin> set (snd (iteration idle_pass example_db))"
  by (simp add: iteration_def idle_pass_def card_read_def)

text \<open>
  Claim C6, amended. A pass sleeps, once and for 1000 ms, as its last action, exactly when a
  card was detected and its serial number read, whether or not an exception was caught. A
  pass without a card, or whose read of the serial number fails, only polls the reader and
  goes straight to the next pass.
\<close>

theorem sleep_after_each_card:
  "sleeps (snd (iteration e db)) = (if card_read e then [1000] else [])
   \<and> (card_read e \<longrightarrow> last (snd (iteration e db)) = Sleep_ms 1000)
   \<and> (\<not> card_read e \<longrightarrow> iteration e db =
         (db, if is_new_card_present e then [PICC_IsNewCardPresent, PICC_ReadCardSerial]
              else [PICC_IsNewCardPresent]))"
  by (simp add: iteration_sleeps iteration_card iteration_no_card)

theorem sleep_after_each_card_witness:
  "card_read failing_tap \<and> sleeps (snd (iteration failing_tap example_db)) = [1000]
   \<and> last (snd (iteration failing_tap example_db)) = Sleep_ms 1000
   \<and> \<not> card_read idle_pass \<and> sleeps (snd (iteration idle_pass example_db)) = []"
proof -
  have "\<not> card_read idle_pass"
    by (simp add: idle_pass_def card_read_def)
  with sleep_after_each_card [of failing_tap example_db]
    sleep_after_each_card [of idle_pass example_db]
  show ?thesis
    by (simp add: failing_tap_facts)
qed

text \<open>
  Claim C7. The program calls \<^verbatim>\<open>connect\<close> exactly once, right after initialising the reader and
  before the first pass of the loop. No pass connects, whatever exceptions it catches. If
  \<^verbatim>\<open>connect\<close> throws, the program ends there: the call is not repeated.
\<close>

theorem single_connection_before_loop:
  "filter is_connect (snd (main st es db)) = [Connect ''tcp://127.0.0.1:3307'' ''root'' ''root'']
   \<and> take 2 (snd (main st es db)) = [PCD_Init, Connect ''tcp://127.0.0.1:3307'' ''root'' ''root'']
   \<and> filter is_connect (snd (loop es db)) = []
   \<and> (connect_exc st = None \<and> set_schema_exc st = None \<longrightarrow>
        snd (main st es db)
          = [PCD_Init, Connect ''tcp://127.0.0.1:3307'' ''root'' ''root'',
             SetSchema ''rfid_database''] @ snd (loop es db))
   \<and> (connect_exc st \<noteq> None \<longrightarrow>
        snd (main st es db) = [PCD_Init, Connect ''tcp://127.0.0.1:3307'' ''root'' ''root''])"
  by (simp add: main_def init_events_def loop_no_connect case_prod_beta split: option.splits)

theorem single_connection_before_loop_witness:
  "connect_exc example_startup = None \<and> set_schema_exc example_startup = None
   \<and> filter is_connect (snd (main example_startup [failing_tap, idle_pass, example_tap] example_db))
        = [Connect ''tcp://127.0.0.1:3307'' ''root'' ''root'']
   \<and> snd (main example_startup [failing_tap, idle_pass, example_tap] example_db)
        = [PCD_Init, Connect ''tcp://127.0.0.1:3307'' ''root'' ''root'',
           SetSchema ''rfid_database'']
          @ snd (loop [failing_tap, idle_pass, example_tap] example_db)
   \<and> connect_exc (example_startup\<lparr>connect_exc := Some ''Connection refused''\<rparr>) \<noteq> None
   \<and> snd (main (example_startup\<lparr>connect_exc := Some ''Connection refused''\<rparr>)
              [failing_tap, idle_pass, example_tap] example_db)
        = [PCD_Init, Connect ''tcp://127.0.0.1:3307'' ''root'' ''root'']"
proof -
  have "connect_exc example_startup = None" "set_schema_exc example_startup = None"
    by (simp_all add: example_startup_def)
  with single_connection_before_loop
    [of example_startup "[failing_tap, idle_pass, example_tap]" example_db]
    single_connection_before_loop
    [of "example_startup\<lparr>connect_exc := Some ''Connection refused''\<rparr>"
      "[failing_tap, idle_pass, example_tap]" example_db]
  show ?thesis by simp
qed

text \<open>
  Claim C8, as stated, fails at the largest \<^verbatim>\<open>int\<close>. A row with tap count 2147483647 satisfies
  the invariant; the tap computes 2147483647 + 1 in 32 bits and writes -2147483648, which is
  neither greater than the value read nor at least 1. (C++ leaves this overflow undefined;
  the model takes the two's complement result.)
\<close>

theorem tap_count_wraps_at_int_max:
  "tap_counts_positive worn_db
   \<and> sql_select (format_uid (uid example_tap)) worn_db = [worn_row]
   \<and> sint (tap_count worn_row) = 2147483647
   \<and> statements (snd (iteration example_tap worn_db))
        = [Select ''0AFF007B'', Update 0x80000000 ''0AFF007B'']
   \<and> sint (0x80000000 :: 32 word) = - 2147483648
   \<and> \<not> tap_counts_positive (fst (iteration example_tap worn_db))"
proof -
  have s: "sql_select (format_uid (uid example_tap)) worn_db = [worn_row]"
    by (simp add: example_tap_facts sql_select_def worn_db_def worn_row_def)
  have "tap_counts_positive worn_db"
    by (simp add: tap_counts_positive_def worn_db_def worn_row_def)
  moreover have "sint (tap_count worn_row) = 2147483647"
    by (simp add: worn_row_def)
  moreover have "tap_count worn_row + 1 = 0x80000000"
    by (simp add: worn_row_def)
  moreover have "sint (0x80000000 :: 32 word) = - 2147483648"
    by simp
  moreover have "users worn_db = [worn_row]" "UID worn_row = ''0AFF007B''"
    by (simp_all add: worn_db_def worn_row_def)
  ultimately show ?thesis
    using s by (simp add: iteration_known [OF example_tap_facts(1,2) s] example_tap_facts
        tap_counts_positive_def sql_update_def)
qed

text \<open>
  Claim C8, amended. If every tap count is at least 1 and the count the \<^verbatim>\<open>SELECT\<close> of this pass
  delivers is below 2147483647, every tap count is at least 1 after the pass. The value of
  an \<^verbatim>\<open>UPDATE\<close> is then strictly greater than the count read, and a row added by the pass has
  tap count 1.
\<close>

theorem tap_counts_stay_positive:
  assumes "tap_counts_positive db"
    and "\<forall>r rs. sql_select (format_uid (uid e)) db = r # rs \<longrightarrow> sint (tap_count r) < 2147483647"
  shows "tap_counts_positive (fst (iteration e db))
       \<and> (\<forall>c k. Update c k \<in> set (statements (snd (iteration e db))) \<longrightarrow>
             sint (tap_count (hd (sql_select k db))) < sint c)
       \<and> (length (users (fst (iteration e db))) \<noteq> length (users db) \<longrightarrow>
             users (fst (iteration e db))
               = users db @ [\<lparr>UID = format_uid (uid e), tap_count = 1,
                               username = username_default db, last_scan_time = now e\<rparr>])"
proof -
  let ?k = "format_uid (uid e)"
  have inv: "tap_counts_positive (fst (iteration e db))"
    using try_block_database [of e ?k db] assms
    by (auto simp: iteration_database positive_after_update positive_after_insert)
  have upd: "sint (tap_count (hd (sql_select k db))) < sint c"
    if "Update c k \<in> set (statements (snd (iteration e db)))" for c k
  proof -
    from that have c: "card_read e"
      and m: "Update c k \<in> set (statements (snd (snd (try_block e ?k db))))"
      by (simp_all add: iteration_statements split: if_splits)
    from m try_block_events(3) [of e ?k db] have k: "k = ?k"
      by force
    from try_block_update_value [OF m] obtain r rs
      where r: "sql_select ?k db = r # rs" "c = tap_count r + 1"
      by blast
    with assms(2) have "sint c = sint (tap_count r) + 1"
      by (simp add: sint_succ)
    with r k show ?thesis by simp
  qed
  have ins: "users (fst (iteration e db))
        = users db @ [\<lparr>UID = ?k, tap_count = 1,
                        username = username_default db, last_scan_time = now e\<rparr>]"
    if "length (users (fst (iteration e db))) \<noteq> length (users db)"
    using try_block_database [of e ?k db] that
    by (auto simp: iteration_database sql_update_def sql_insert_def split: if_splits)
  from inv upd ins show ?thesis by blast
qed

theorem tap_counts_stay_positive_witness:
  "tap_counts_positive example_db
   \<and> sql_select (format_uid (uid example_tap)) example_db = [example_row]
   \<and> sint (tap_count example_row) < 2147483647
   \<and> tap_counts_positive (fst (iteration example_tap example_db))
   \<and> Update 5 ''0AFF007B'' \<in> set (statements (snd (iteration example_tap example_db)))
   \<and> sint (tap_count (hd (sql_select ''0AFF007B'' example_db))) < sint (5 :: 32 word)
   \<and> tap_counts_positive other_db
   \<and> sql_select (format_uid (uid example_tap)) other_db = []
   \<and> length (users (fst (iteration example_tap other_db))) \<noteq> length (users other_db)
   \<and> tap_counts_positive (fst (iteration example_tap other_db))"
proof -
  have s: "sql_select (format_uid (uid example_tap)) example_db = [example_row]"
    and n: "sql_select (format_uid (uid example_tap)) other_db = []"
    by (simp_all add: example_tap_facts example_selects)
  have p: "tap_counts_positive example_db" "tap_counts_positive other_db"
    by (simp_all add: tap_counts_positive_def example_db_def other_db_def example_row_def
        other_row_def)
  have b: "sint (tap_count example_row) < 2147483647"
    by (simp add: example_row_def)
  have h1: "\<forall>r rs. sql_select (format_uid (uid example_tap)) example_db = r # rs
      \<longrightarrow> sint (tap_count r) < 2147483647"
    using b by (simp add: s)
  have h2: "\<forall>r rs. sql_select (format_uid (uid example_tap)) other_db = r # rs
      \<longrightarrow> sint (tap_count r) < 2147483647"
    by (simp add: n)
  have st: "statements (snd (iteration example_tap example_db))
      = [Select ''0AFF007B'', Update 5 ''0AFF007B'']"
    by (simp add: iteration_known [OF example_tap_facts(1,2) s] example_tap_facts example_row_def)
  have len: "length (users (fst (iteration example_tap other_db))) \<noteq> length (users other_db)"
    by (simp add: iteration_unknown [OF example_tap_facts(1,2) n] sql_insert_def)
  from tap_counts_stay_positive [OF p(1) h1] tap_counts_stay_positive [OF p(2) h2]
  show ?thesis
    using s n p b st len by simp
qed

text \<open>
  Claim C9. On the first tap of an unknown UID, with no driver call throwing, no greeting is
  printed: the branch, and with it the whole \<^verbatim>\<open>try\<close> block, prints only
  \<^verbatim>\<open>UID inserted into database.\<close> The pass as a whole prints the UID line of line 74 before it,
  as for every card, and neither line is a greeting. The next tap of that UID finds the row
  with tap count 1 and prints a greeting, \<^verbatim>\<open>Goodbye\<close> followed by the user name the new row was
  given.
\<close>

theorem first_tap_prints_no_greeting:
  assumes "card_read e" and "fault e = Map.empty"
    and "format_uid (uid e) \<notin> set (map UID (users db))"
  shows "cout_lines (snd (snd (insert_branch e (format_uid (uid e)) db)))
           = [''UID inserted into database.'']
       \<and> cout_lines (snd (snd (try_block e (format_uid (uid e)) db)))
           = [''UID inserted into database.'']
       \<and> cout_lines (snd (iteration e db))
           = [''UID: '' @ format_uid (uid e), ''UID inserted into database.'']
       \<and> \<not> list_ex is_greeting (cout_lines (snd (iteration e db)))
       \<and> (card_read e' \<and> fault e' = Map.empty \<and> format_uid (uid e') = format_uid (uid e) \<longrightarrow>
            cout_lines (snd (iteration e' (fst (iteration e db))))
              = [''UID: '' @ format_uid (uid e), ''Goodbye '' @ get_string (username_default db)]
            \<and> list_ex is_greeting (cout_lines (snd (iteration e' (fst (iteration e db))))))"
proof -
  let ?k = "format_uid (uid e)"
  from assms(3) have n: "sql_select ?k db = []"
    by (force simp: sql_select_def filter_empty_conv)
  have branch: "cout_lines (snd (snd (insert_branch e ?k db))) = [''UID inserted into database.'']"
    by (simp add: insert_branch_def assms(2))
  have block: "cout_lines (snd (snd (try_block e ?k db))) = [''UID inserted into database.'']"
    by (simp add: try_block_absent [OF assms(2) n])
  have first: "iteration e db =
      (sql_insert ?k (now e) db,
       [PICC_IsNewCardPresent, PICC_ReadCardSerial, Cout (''UID: '' @ ?k),
        Exec (Select ?k), Exec (Insert ?k), Cout ''UID inserted into database.'', Sleep_ms 1000])"
    by (rule iteration_unknown [OF assms(1,2) n])
  have second: "cout_lines (snd (iteration e' (sql_insert ?k (now e) db)))
      = [''UID: '' @ ?k, ''Goodbye '' @ get_string (username_default db)]"
    if e': "card_read e'" "fault e' = Map.empty" "format_uid (uid e') = ?k"
  proof -
    have "sql_select (format_uid (uid e')) (sql_insert ?k (now e) db)
        = [\<lparr>UID = ?k, tap_count = 1, username = username_default db, last_scan_time = now e\<rparr>]"
      by (simp add: e'(3) sql_select_insert n)
    from iteration_known [OF e'(1,2) this] show ?thesis
      by (simp add: e'(3))
  qed
  show ?thesis
    using second not_greeting_uid_line [of ?k] not_greeting_inserted
      greeting_goodbye [of "get_string (username_default db)"]
    by (simp add: first branch block)
qed

theorem first_tap_prints_no_greeting_witness:
  "card_read example_tap \<and> fault example_tap = Map.empty
   \<and> format_uid (uid example_tap) \<notin> set (map UID (users other_db))
   \<and> cout_lines (snd (snd (try_block example_tap ''0AFF007B'' other_db)))
        = [''UID inserted into database.'']
   \<and> cout_lines (snd (iteration example_tap other_db))
        = [''UID: 0AFF007B'', ''UID inserted into database.'']
   \<and> cout_lines (snd (iteration example_tap (fst (iteration example_tap other_db))))
        = [''UID: 0AFF007B'', ''Goodbye '']"
proof -
  have a: "format_uid (uid example_tap) \<notin> set (map UID (users other_db))"
    by (simp add: example_tap_facts other_db_def other_row_def)
  have "get_string (username_default other_db) = []"
    by (simp add: other_db_def get_string_def)
  with first_tap_prints_no_greeting [OF example_tap_facts(1,2) a, of example_tap] a
  show ?thesis
    by (simp add: example_tap_facts)
qed

text \<open>
  Claim C10. A card is read. If everything up to the \<^verbatim>\<open>UPDATE\<close> succeeds and executing the
  \<^verbatim>\<open>UPDATE\<close> throws, the pass prints no greeting: after the UID line of line 74, which precedes
  the \<^verbatim>\<open>try\<close> block, its only output is the exception log on \<^verbatim>\<open>std::cerr\<close>, and the table is
  unchanged. The same holds for the \<^verbatim>\<open>INSERT\<close> and the message \<^verbatim>\<open>UID inserted into database.\<close>
  More generally, whichever driver call throws, the pass prints the UID line and the exception
  log and nothing else; and whenever the \<^verbatim>\<open>try\<close> block prints a message, no call has thrown and
  the message comes right after the \<^verbatim>\<open>UPDATE\<close> or \<^verbatim>\<open>INSERT\<close>, whose effect the table then shows.
\<close>

theorem success_message_only_after_write:
  assumes "card_read e"
  shows "(first_fault e [PrepareSelect, SetStringSelect, ExecuteQuery, ResNext,
            GetStringUsername, GetIntTapCount, PrepareUpdate, SetIntUpdate, SetStringUpdate] = None
          \<and> sql_select (format_uid (uid e)) db = r # rs \<and> fault e ExecuteUpdate = Some m \<longrightarrow>
          iteration e db =
            (db, [PICC_IsNewCardPresent, PICC_ReadCardSerial,
                  Cout (''UID: '' @ format_uid (uid e)),
                  Exec (Select (format_uid (uid e))),
                  Exec (Update (tap_count r + 1) (format_uid (uid e))),
                  Cerr (''SQL Exception: '' @ m), Sleep_ms 1000]))
       \<and> (first_fault e [PrepareSelect, SetStringSelect, ExecuteQuery, ResNext,
            PrepareInsert, SetStringInsert] = None
          \<and> sql_select (format_uid (uid e)) db = [] \<and> fault e ExecuteInsert = Some m \<longrightarrow>
          iteration e db =
            (db, [PICC_IsNewCardPresent, PICC_ReadCardSerial,
                  Cout (''UID: '' @ format_uid (uid e)),
                  Exec (Select (format_uid (uid e))), Exec (Insert (format_uid (uid e))),
                  Cerr (''SQL Exception: '' @ m), Sleep_ms 1000]))
       \<and> (fst (try_block e (format_uid (uid e)) db) = Some m \<longrightarrow>
            fst (iteration e db) = db
          \<and> cout_lines (snd (iteration e db)) = [''UID: '' @ format_uid (uid e)]
          \<and> cerr_lines (snd (iteration e db)) = [''SQL Exception: '' @ m])
       \<and> (\<forall>msg. Cout msg \<in> set (snd (snd (try_block e (format_uid (uid e)) db))) \<longrightarrow>
            fst (try_block e (format_uid (uid e)) db) = None
          \<and> ((\<exists>c. snd (try_block e (format_uid (uid e)) db)
                 = (sql_update c (format_uid (uid e)) (now e) db,
                    [Exec (Select (format_uid (uid e))), Exec (Update c (format_uid (uid e))),
                     Cout msg]))
             \<or> snd (try_block e (format_uid (uid e)) db)
                 = (sql_insert (format_uid (uid e)) (now e) db,
                    [Exec (Select (format_uid (uid e))), Exec (Insert (format_uid (uid e))),
                     Cout msg])))"
proof -
  let ?k = "format_uid (uid e)"
  have raised: "fst (iteration e db) = db
      \<and> cout_lines (snd (iteration e db)) = [''UID: '' @ ?k]
      \<and> cerr_lines (snd (iteration e db)) = [''SQL Exception: '' @ m]"
    if "fst (try_block e ?k db) = Some m"
    using try_block_raised [OF that] try_block_events(1) [of e ?k db] that
    by (simp add: iteration_card [OF assms] cout_lines_append cerr_lines_append catch_block_def)
  have upd: "iteration e db =
      (db, [PICC_IsNewCardPresent, PICC_ReadCardSerial, Cout (''UID: '' @ ?k),
            Exec (Select ?k), Exec (Update (tap_count r + 1) ?k),
            Cerr (''SQL Exception: '' @ m), Sleep_ms 1000])"
    if "first_fault e [PrepareSelect, SetStringSelect, ExecuteQuery, ResNext,
            GetStringUsername, GetIntTapCount, PrepareUpdate, SetIntUpdate, SetStringUpdate] = None"
      "sql_select ?k db = r # rs" "fault e ExecuteUpdate = Some m"
    by (simp add: iteration_card [OF assms] try_block_update_throws [OF that] catch_block_def)
  have ins: "iteration e db =
      (db, [PICC_IsNewCardPresent, PICC_ReadCardSerial, Cout (''UID: '' @ ?k),
            Exec (Select ?k), Exec (Insert ?k),
            Cerr (''SQL Exception: '' @ m), Sleep_ms 1000])"
    if "first_fault e [PrepareSelect, SetStringSelect, ExecuteQuery, ResNext,
            PrepareInsert, SetStringInsert] = None"
      "sql_select ?k db = []" "fault e ExecuteInsert = Some m"
    by (simp add: iteration_card [OF assms] try_block_insert_throws [OF that] catch_block_def)
  from raised upd ins try_block_message [of _ e ?k db] show ?thesis
    by blast
qed

theorem success_message_only_after_write_witness:
  "card_read failing_tap
   \<and> sql_select (format_uid (uid failing_tap)) example_db = [example_row]
   \<and> fault failing_tap ExecuteUpdate = Some ''Lost connection to MySQL server''
   \<and> iteration failing_tap example_db =
        (example_db, [PICC_IsNewCardPresent, PICC_ReadCardSerial, Cout ''UID: 0AFF007B'',
           Exec (Select ''0AFF007B''), Exec (Update 5 ''0AFF007B''),
           Cerr ''SQL Exception: Lost connection to MySQL server'', Sleep_ms 1000])
   \<and> card_read failing_insert_tap
   \<and> sql_select (format_uid (uid failing_insert_tap)) other_db = []
   \<and> fault failing_insert_tap ExecuteInsert = Some ''Table is read only''
   \<and> iteration failing_insert_tap other_db =
        (other_db, [PICC_IsNewCardPresent, PICC_ReadCardSerial, Cout ''UID: 0AFF007B'',
           Exec (Select ''0AFF007B''), Exec (Insert ''0AFF007B''),
           Cerr ''SQL Exception: Table is read only'', Sleep_ms 1000])
   \<and> Cout ''Hello alice'' \<in> set (snd (snd (try_block example_tap ''0AFF007B'' example_db)))
   \<and> fst (try_block example_tap ''0AFF007B'' example_db) = None"
proof -
  have s: "sql_select (format_uid (uid failing_tap)) example_db = [example_row]"
    and n: "sql_select (format_uid (uid failing_insert_tap)) other_db = []"
    and s': "sql_select ''0AFF007B'' example_db = [example_row]"
    by (simp_all add: failing_tap_facts failing_insert_tap_facts example_selects)
  have ok: "try_block example_tap ''0AFF007B'' example_db
      = (None, sql_update 5 ''0AFF007B'' 1700000000 example_db,
         [Exec (Select ''0AFF007B''), Exec (Update 5 ''0AFF007B''), Cout ''Hello alice''])"
    by (simp add: try_block_present [OF example_tap_facts(2) s'] example_tap_facts
        example_row_def get_string_def)
  then have c: "Cout ''Hello alice'' \<in> set (snd (snd (try_block example_tap ''0AFF007B'' example_db)))"
    by simp
  have t: "tap_count example_row + 1 = 5"
    by (simp add: example_row_def)
  from success_message_only_after_write [OF failing_tap_facts(1), of example_db example_row "[]"
      "''Lost connection to MySQL server''"]
    success_message_only_after_write [OF failing_insert_tap_facts(1), of other_db _ _
      "''Table is read only''"]
    success_message_only_after_write [OF example_tap_facts(1), of example_db]
  show ?thesis
    using s n c t failing_tap_faults failing_insert_tap_facts(3,4)
    by (simp add: failing_tap_facts failing_insert_tap_facts example_tap_facts)
qed

end
